theory Spec2Isabelle
  imports Main
begin

section \<open>Common data: dates, call arguments, errors\<close>

text \<open>
  A date is the day number of a \<^verbatim>\<open>datetime.date\<close>; \<^verbatim>\<open>d - timedelta(days = 1)\<close> is
  \<open>d - 1\<close> and the comparisons of dates are those of the day numbers. The representation
  limits of \<^verbatim>\<open>datetime.date\<close> (years 1 to 9999) are outside the model.
  \<^verbatim>\<open>datetime.date.today()\<close> is the parameter \<open>today\<close> of every function that reads the
  clock, and the constant date that \<^verbatim>\<open>end_of_times()\<close> of
  \<^verbatim>\<open>camelot.model.authentication\<close> returns is the parameter \<open>end_of_times\<close>.
\<close>

type_synonym date = int

text \<open>A keyword argument of a Python call is either left out or passed.\<close>

datatype 'a arg = Omitted | Passed 'a

text \<open>
  Exceptions. \<open>TypeError\<close>, \<open>IndexError\<close> and \<open>AttributeError\<close> are raised by the
  interpreter, \<open>Exception msg\<close> is \<^verbatim>\<open>raise Exception(msg)\<close> in the repository's code, and
  \<open>Propagated n\<close> is an exception \<open>n\<close> that was raised inside a callee that is
  not code of the repository (the ORM, the GUI toolkit, a superclass of another package).
\<close>

datatype error = TypeError | IndexError | AttributeError | Exception string | Propagated string

section \<open>Status histories (\<^verbatim>\<open>camelot/model/type_and_status.py\<close>)\<close>

text \<open>
  A row of the status history table of an entity class: the columns of the mixin
  \<^verbatim>\<open>StatusHistory\<close>, the primary key, the foreign key \<^verbatim>\<open>status_for_id\<close> to the entity
  and \<^verbatim>\<open>classified_by\<close>, whose type \<open>'st\<close> is the status type or the enumeration.
  The three status dates are nullable columns.
\<close>

record 'st StatusHistory =
  history_id :: nat
  status_for_id :: nat
  classified_by :: 'st
  status_datetime :: "date option"
  status_from_date :: "date option"
  status_thru_date :: "date option"
  from_date :: date
  thru_date :: date

subsection \<open>\<^verbatim>\<open>StatusMixin.get_status_history_at\<close>\<close>

text \<open>
  The loop over the collection \<^verbatim>\<open>self.status\<close>. The condition is
  \<^verbatim>\<open>status_from_date <= status_date and status_thru_date >= status_date\<close>: comparing
  \<^verbatim>\<open>None\<close> with a date raises \<^verbatim>\<open>TypeError\<close>, and \<^verbatim>\<open>and\<close> evaluates its second operand
  only when the first one holds. Falling out of the loop returns \<^verbatim>\<open>None\<close>.
\<close>

fun status_history_loop ::
  "date \<Rightarrow> 'st StatusHistory list \<Rightarrow> error + 'st StatusHistory option" where
  "status_history_loop status_date [] = Inr None"
| "status_history_loop status_date (status_history # rest) =
     (case status_from_date status_history of
        None \<Rightarrow> Inl TypeError
      | Some f \<Rightarrow>
          if f \<le> status_date then
            (case status_thru_date status_history of
               None \<Rightarrow> Inl TypeError
             | Some t \<Rightarrow>
                 if t \<ge> status_date then Inr (Some status_history)
                 else status_history_loop status_date rest)
          else status_history_loop status_date rest)"

definition get_status_history_at ::
  "date \<Rightarrow> 'st StatusHistory list \<Rightarrow> date option \<Rightarrow> error + 'st StatusHistory option" where
  "get_status_history_at today status status_date =
     (let status_date = (case status_date of None \<Rightarrow> today | Some d \<Rightarrow> d)
      in status_history_loop status_date status)"

text \<open>The date range of a record contains a date; a null bound contains nothing.\<close>

definition in_range :: "'st StatusHistory \<Rightarrow> date \<Rightarrow> bool" where
  "in_range h d =
     (case (status_from_date h, status_thru_date h) of
        (Some f, Some t) \<Rightarrow> f \<le> d \<and> d \<le> t
      | _ \<Rightarrow> False)"

definition dated :: "'st StatusHistory \<Rightarrow> bool" where
  "dated h = (status_from_date h \<noteq> None \<and> status_thru_date h \<noteq> None)"

subsection \<open>\<^verbatim>\<open>StatusMixin.current_status\<close> and \<^verbatim>\<open>current_status_query\<close>\<close>

text \<open>The Python side of the hybrid property.\<close>

definition current_status :: "date \<Rightarrow> 'st StatusHistory list \<Rightarrow> error + 'st option" where
  "current_status today status =
     (case get_status_history_at today status None of
        Inl e \<Rightarrow> Inl e
      | Inr None \<Rightarrow> Inr None
      | Inr (Some status_history) \<Rightarrow> Inr (Some (classified_by status_history)))"

text \<open>
  The SQL side, read as the scalar subquery it is: the rows of the history table for
  the entity \<open>status_class_id\<close> that are valid at \<^verbatim>\<open>current_date\<close> (a comparison with a
  null date is not true in SQL, which is \<open>in_range\<close>), ordered by descending
  primary key, limited to one row; no row gives NULL.
\<close>

definition current_status_query ::
  "date \<Rightarrow> 'st StatusHistory list \<Rightarrow> nat \<Rightarrow> 'st option" where
  "current_status_query current_date status_history status_class_id =
     (case rev (sort_key history_id
            (filter (\<lambda>h. status_for_id h = status_class_id \<and> in_range h current_date)
               status_history)) of
        [] \<Rightarrow> None
      | h # _ \<Rightarrow> Some (classified_by h))"

subsection \<open>\<^verbatim>\<open>StatusMixin.change_status\<close>\<close>

text \<open>
  The session is the list of the rows of the history table, in the order in which the
  database returns them. \<^verbatim>\<open>Query.first()\<close> gives the first row that passes the filter,
  here as its position in the table, so that the assignments to \<^verbatim>\<open>old_status\<close> update
  the row in place. The arguments \<^verbatim>\<open>status_from_date\<close> and \<^verbatim>\<open>status_thru_date\<close> are
  \<open>status_from\<close> and \<open>status_thru\<close> here (the columns have the names), and the
  values the body works with are \<open>from_day\<close> and \<open>thru_day\<close>.
\<close>

fun query_first :: "('a \<Rightarrow> bool) \<Rightarrow> 'a list \<Rightarrow> nat option" where
  "query_first p [] = None"
| "query_first p (x # xs) =
     (if p x then Some 0 else map_option Suc (query_first p xs))"

text \<open>The primary key a flush gives to a new row: one more than the largest in use.\<close>

definition next_id :: "nat list \<Rightarrow> nat" where
  "next_id ids = Suc (fold max ids 0)"

text \<open>The relationship collection \<^verbatim>\<open>self.status\<close> of the entity \<open>self\<close>.\<close>

definition status_collection ::
  "nat \<Rightarrow> 'st StatusHistory list \<Rightarrow> 'st StatusHistory list" where
  "status_collection self session = filter (\<lambda>h. status_for_id h = self) session"

text \<open>The filter of the query for the old status, as a predicate on a row.\<close>

definition old_status_filter :: "nat \<Rightarrow> date \<Rightarrow> 'st StatusHistory \<Rightarrow> bool" where
  "old_status_filter self from_day h = (status_for_id h = self \<and> in_range h from_day)"

definition change_status ::
  "date \<Rightarrow> date \<Rightarrow> nat \<Rightarrow> 'st \<Rightarrow> date option \<Rightarrow> date option arg
     \<Rightarrow> 'st StatusHistory list \<Rightarrow> 'st StatusHistory list" where
  "change_status today end_of_times self new_status status_from status_thru session =
     (let from_day = (case status_from of None \<Rightarrow> today | Some d \<Rightarrow> d);
          thru_day =
            (case status_thru of Omitted \<Rightarrow> Some end_of_times | Passed t \<Rightarrow> t);
          old_status =
            query_first (old_status_filter self from_day) session;
          session1 =
            (case old_status of
               None \<Rightarrow> session
             | Some i \<Rightarrow>
                 session[i := (session ! i)
                   \<lparr>thru_date := today - 1,
                    status_thru_date := Some (from_day - 1)\<rparr>]);
          new_status =
            \<lparr>history_id = next_id (map history_id session),
             status_for_id = self,
             classified_by = new_status,
             status_datetime = None,
             status_from_date = Some from_day,
             status_thru_date = thru_day,
             from_date = today,
             thru_date = end_of_times\<rparr>
      in session1 @ [new_status])"

text \<open>
  A sequence of calls on one entity. A call is the date of the day on which it is made
  and its three arguments.
\<close>

type_synonym 'st call = "date \<times> 'st \<times> date option \<times> date option arg"

fun change_status_calls ::
  "date \<Rightarrow> nat \<Rightarrow> 'st call list \<Rightarrow> 'st StatusHistory list \<Rightarrow> 'st StatusHistory list" where
  "change_status_calls end_of_times self [] session = session"
| "change_status_calls end_of_times self ((today, new_status, sfd, std) # calls) session =
     change_status_calls end_of_times self calls
       (change_status today end_of_times self new_status sfd std session)"

text \<open>The \<^verbatim>\<open>status_from_date\<close> a call works with.\<close>

fun call_from :: "'st call \<Rightarrow> date" where
  "call_from (today, new_status, sfd, std) = (case sfd of None \<Rightarrow> today | Some d \<Rightarrow> d)"

text \<open>
  Two records overlap when their date ranges share a date; a history is
  non-overlapping when no two of its records do.
\<close>

definition overlap :: "'st StatusHistory \<Rightarrow> 'st StatusHistory \<Rightarrow> bool" where
  "overlap h k =
     (case (status_from_date h, status_thru_date h, status_from_date k, status_thru_date k) of
        (Some a, Some b, Some c, Some d) \<Rightarrow> a \<le> b \<and> c \<le> d \<and> a \<le> d \<and> c \<le> b
      | _ \<Rightarrow> False)"

definition non_overlapping :: "'st StatusHistory list \<Rightarrow> bool" where
  "non_overlapping hs = sorted_wrt (\<lambda>h k. \<not> overlap h k) hs"

section \<open>The import wizard's table model (\<^verbatim>\<open>camelot/view/wizard/import_data.py\<close>)\<close>

record 'a InputTableModel =
  arraydata :: "'a list list"
  headerdata :: "string list"

definition InputTableModel_init :: "'a list list \<Rightarrow> string list \<Rightarrow> 'a InputTableModel" where
  "InputTableModel_init datain headerdata_in =
     \<lparr>arraydata = datain, headerdata = headerdata_in\<rparr>"

definition rowCount :: "'a InputTableModel \<Rightarrow> nat" where
  "rowCount self = length (arraydata self)"

definition columnCount :: "'a InputTableModel \<Rightarrow> error + nat" where
  "columnCount self =
     (case arraydata self of
        [] \<Rightarrow> Inl IndexError
      | row0 # _ \<Rightarrow> Inr (length row0))"

section \<open>The entity validator (\<^verbatim>\<open>camelot/admin/validator/entity_validator.py\<close>)\<close>

text \<open>
  \<^verbatim>\<open>orm.object_session\<close>, the session's \<^verbatim>\<open>deleted\<close> set and the inherited
  \<^verbatim>\<open>ObjectValidator.validate_object\<close> are not code of this file: they are parameters.
  The first and the last can raise.
\<close>

definition validate_object ::
  "('o \<Rightarrow> error + 's option) \<Rightarrow> ('s \<Rightarrow> 'o set) \<Rightarrow> ('o \<Rightarrow> error + string list)
     \<Rightarrow> 'o \<Rightarrow> error + string list" where
  "validate_object object_session deleted super_validate_object obj =
     (case object_session obj of
        Inl e \<Rightarrow> Inl e
      | Inr None \<Rightarrow> Inr []
      | Inr (Some session) \<Rightarrow>
          if obj \<in> deleted session then Inr []
          else super_validate_object obj)"

section \<open>The embedded many-to-one editor (\<^verbatim>\<open>editors-bak/embeddedmany2oneeditor.py\<close>)\<close>



section \<open>Parties and addresses (\<^verbatim>\<open>camelot/model/party.py\<close>)\<close>

subsection \<open>\<^verbatim>\<open>Country.get_or_create\<close> and \<^verbatim>\<open>Address.get_or_create\<close>\<close>

text \<open>
  The rows of the two tables with the columns the functions read and write. A nullable
  column has an option type; \<^verbatim>\<open>filter_by(c = v)\<close> compares with \<open>=\<close>, and with
  \<^verbatim>\<open>IS NULL\<close> when \<open>v\<close> is \<^verbatim>\<open>None\<close>, which is the equality of the option type. A city
  is referred to by its primary key.
\<close>

record Country =
  country_id :: nat
  country_code :: "string option"
  country_name :: string

record Address =
  address_id :: nat
  street1 :: string
  street2 :: "string option"
  city :: nat

definition Country_get_or_create ::
  "string option \<Rightarrow> string \<Rightarrow> Country list \<Rightarrow> Country \<times> Country list" where
  "Country_get_or_create code name session =
     (case find (\<lambda>c. country_code c = code) session of
        Some country \<Rightarrow> (country, session)
      | None \<Rightarrow>
          (let country = \<lparr>country_id = next_id (map country_id session),
                          country_code = code, country_name = name\<rparr>
           in (country, session @ [country])))"

definition Address_get_or_create ::
  "string \<Rightarrow> string option \<Rightarrow> nat \<Rightarrow> Address list \<Rightarrow> Address \<times> Address list" where
  "Address_get_or_create s1 s2 c session =
     (case find (\<lambda>a. street1 a = s1 \<and> street2 a = s2 \<and> city a = c) session of
        Some address \<Rightarrow> (address, session)
      | None \<Rightarrow>
          (let address = \<lparr>address_id = next_id (map address_id session),
                          street1 = s1, street2 = s2, city = c\<rparr>
           in (address, session @ [address])))"

subsection \<open>\<^verbatim>\<open>PartyAddress.__setattr__\<close>\<close>

text \<open>
  Attribute values: \<^verbatim>\<open>None\<close>, a string, or a reference to an entity object. An object
  is the dictionary of its attributes. The store holds the attributes of the
  \<^verbatim>\<open>PartyAddress\<close> at hand, the other entity objects by reference, and the number of
  objects created so far, which is the reference of the next one.
\<close>

datatype val = VNone | VStr string | VObj nat

type_synonym attrs = "string \<rightharpoonup> val"

record store =
  self_attrs :: attrs
  heap :: "nat \<Rightarrow> attrs"
  allocated :: nat

text \<open>
  Reading an attribute: the columns and relations of a mapped object read \<^verbatim>\<open>None\<close>
  until they are set, and \<^verbatim>\<open>__new__\<close> sets the three hidden attributes to \<^verbatim>\<open>None\<close>.
\<close>

definition getattr_of :: "attrs \<Rightarrow> string \<Rightarrow> val" where
  "getattr_of a n = (case a n of None \<Rightarrow> VNone | Some v \<Rightarrow> v)"

fun truth :: "val \<Rightarrow> bool" where
  "truth VNone = False"
| "truth (VStr s) = (s \<noteq> [])"
| "truth (VObj r) = True"

definition startswith :: "string \<Rightarrow> string \<Rightarrow> bool" where
  "startswith s p = (take (length p) s = p)"

definition PartyAddress_new :: attrs where
  "PartyAddress_new =
     [''_address_street1'' \<mapsto> VNone, ''_address_street2'' \<mapsto> VNone,
      ''_address_city'' \<mapsto> VNone]"

text \<open>
  \<^verbatim>\<open>setattr(self, '_address_' + ..., value)\<close> comes back to \<^verbatim>\<open>__setattr__\<close> with a name
  that starts with an underscore and so stores the value. Setting an attribute of a
  string raises \<^verbatim>\<open>AttributeError\<close>; setting one of \<^verbatim>\<open>self.address\<close> writes to the object
  referred to. \<^verbatim>\<open>Address(street1 = ..., city = ...)\<close> is a new object.
\<close>

definition PartyAddress_setattr :: "store \<Rightarrow> string \<Rightarrow> val \<Rightarrow> error + store" where
  "PartyAddress_setattr st attr v =
     (if startswith attr ''address_'' then
        (let rest = drop (length ''address_'') attr;
             self = (self_attrs st)(''_address_'' @ rest \<mapsto> v);
             st1 = st\<lparr>self_attrs := self\<rparr>
         in if truth (getattr_of self ''address'') then
              (case getattr_of self ''address'' of
                 VObj a \<Rightarrow> Inr (st1\<lparr>heap := (heap st1)(a := (heap st1 a)(rest \<mapsto> v))\<rparr>)
               | _ \<Rightarrow> Inl AttributeError)
            else if getattr_of self ''_address_street1'' \<noteq> VNone
                    \<and> getattr_of self ''_address_city'' \<noteq> VNone then
              Inr (st1\<lparr>self_attrs := self(''address'' \<mapsto> VObj (allocated st1)),
                       heap := (heap st1)(allocated st1 :=
                                 [''street1'' \<mapsto> getattr_of self ''_address_street1'',
                                  ''city'' \<mapsto> getattr_of self ''_address_city'']),
                       allocated := Suc (allocated st1)\<rparr>)
            else Inr st1)
      else Inr (st\<lparr>self_attrs := (self_attrs st)(attr \<mapsto> v)\<rparr>))"

subsection \<open>\<^verbatim>\<open>PartyAdmin.flush\<close>\<close>

text \<open>
  The session: the set of objects marked as deleted and the objects handed to
  \<^verbatim>\<open>flush\<close> so far. \<^verbatim>\<open>party.contact_mechanisms\<close> and the \<^verbatim>\<open>contact_mechanism\<close> of each
  of its elements are given as functions.
\<close>

record 'o orm_session =
  deleted_objects :: "'o set"
  flushed :: "'o list"

fun flush_loop ::
  "('o \<Rightarrow> 'o) \<Rightarrow> bool \<Rightarrow> 'o list \<Rightarrow> 'o orm_session \<times> 'o list \<Rightarrow> 'o orm_session \<times> 'o list" where
  "flush_loop contact_mechanism deleted [] (session, objects) = (session, objects)"
| "flush_loop contact_mechanism deleted (party_contact_mechanism # rest) (session, objects) =
     flush_loop contact_mechanism deleted rest
       (if deleted
        then session\<lparr>deleted_objects := insert party_contact_mechanism (deleted_objects session)\<rparr>
        else session,
        objects @ [party_contact_mechanism, contact_mechanism party_contact_mechanism])"

definition PartyAdmin_flush ::
  "('o \<Rightarrow> 'o list) \<Rightarrow> ('o \<Rightarrow> 'o) \<Rightarrow> 'o orm_session option \<Rightarrow> 'o \<Rightarrow> 'o orm_session option" where
  "PartyAdmin_flush contact_mechanisms contact_mechanism object_session party =
     (case object_session of
        None \<Rightarrow> None
      | Some session \<Rightarrow>
          (let deleted = (party \<in> deleted_objects session);
               (session1, objects) =
                 flush_loop contact_mechanism deleted (contact_mechanisms party) (session, [party])
           in Some (session1\<lparr>flushed := flushed session1 @ objects\<rparr>)))"

section \<open>Properties of the status history lookup\<close>

lemma status_history_loop_dated:
  "\<forall>h\<in>set hs. dated h \<Longrightarrow>
   \<exists>r. status_history_loop d hs = Inr r \<and>
       (case r of
          Some h \<Rightarrow> h \<in> set hs \<and> in_range h d
        | None \<Rightarrow> \<forall>h\<in>set hs. \<not> in_range h d)"
proof (induction hs)
  case Nil
  show ?case by simp
next
  case (Cons h hs)
  from Cons.prems obtain f t where ft: "status_from_date h = Some f" "status_thru_date h = Some t"
    by (auto simp: dated_def)
  from Cons obtain r where r: "status_history_loop d hs = Inr r"
    "case r of Some k \<Rightarrow> k \<in> set hs \<and> in_range k d | None \<Rightarrow> \<forall>k\<in>set hs. \<not> in_range k d"
    by auto
  show ?case
  proof (cases "f \<le> d \<and> d \<le> t")
    case True
    then show ?thesis using ft by (simp add: in_range_def)
  next
    case False
    then have "status_history_loop d (h # hs) = Inr r" using ft r(1) by auto
    moreover have "\<not> in_range h d" using False ft by (simp add: in_range_def)
    ultimately show ?thesis using r(2) by (auto split: option.splits)
  qed
qed

text \<open>
  C3: when every record of the status collection has a non-null
  \<^verbatim>\<open>status_from_date\<close> and \<^verbatim>\<open>status_thru_date\<close>, \<^verbatim>\<open>get_status_history_at(d)\<close> raises nothing
  and returns either a record of the collection whose date range contains \<open>d\<close>, or
  \<^verbatim>\<open>None\<close>, and then no record's range contains \<open>d\<close>; called with \<^verbatim>\<open>None\<close> it does what it
  does at today's date.
\<close>

theorem get_status_history_at_valid:
  assumes "\<forall>h\<in>set status. dated h"
  shows "(\<exists>r. get_status_history_at today status (Some d) = Inr r \<and>
            (case r of
               Some h \<Rightarrow> h \<in> set status \<and> in_range h d
             | None \<Rightarrow> \<forall>h\<in>set status. \<not> in_range h d)) \<and>
         get_status_history_at today status None =
           get_status_history_at today status (Some today)"
  using status_history_loop_dated [OF assms, of d]
  by (simp add: get_status_history_at_def)

theorem get_status_history_at_valid_witness:
  "dated \<lparr>history_id = 1, status_for_id = 1, classified_by = ''draft'', status_datetime = None,
     status_from_date = Some 10, status_thru_date = Some 19, from_date = 10, thru_date = 100\<rparr> \<and>
   dated \<lparr>history_id = 2, status_for_id = 1, classified_by = ''ready'', status_datetime = None,
     status_from_date = Some 20, status_thru_date = Some 100, from_date = 20, thru_date = 100\<rparr> \<and>
   get_status_history_at 30
     [\<lparr>history_id = 1, status_for_id = 1, classified_by = ''draft'', status_datetime = None,
       status_from_date = Some 10, status_thru_date = Some 19, from_date = 10, thru_date = 100\<rparr>,
      \<lparr>history_id = 2, status_for_id = 1, classified_by = ''ready'', status_datetime = None,
       status_from_date = Some 20, status_thru_date = Some 100, from_date = 20, thru_date = 100\<rparr>]
     (Some 25) =
   Inr (Some \<lparr>history_id = 2, status_for_id = 1, classified_by = ''ready'', status_datetime = None,
     status_from_date = Some 20, status_thru_date = Some 100, from_date = 20, thru_date = 100\<rparr>) \<and>
   get_status_history_at 30
     [\<lparr>history_id = 1, status_for_id = 1, classified_by = ''draft'', status_datetime = None,
       status_from_date = Some 10, status_thru_date = Some 19, from_date = 10, thru_date = 100\<rparr>,
      \<lparr>history_id = 2, status_for_id = 1, classified_by = ''ready'', status_datetime = None,
       status_from_date = Some 20, status_thru_date = Some 100, from_date = 20, thru_date = 100\<rparr>]
     (Some 5) = Inr None"
  using get_status_history_at_valid [of
     "[\<lparr>history_id = 1, status_for_id = 1, classified_by = ''draft'', status_datetime = None,
       status_from_date = Some 10, status_thru_date = Some 19, from_date = 10, thru_date = 100\<rparr>,
      \<lparr>history_id = 2, status_for_id = 1, classified_by = ''ready'', status_datetime = None,
       status_from_date = Some 20, status_thru_date = Some 100, from_date = 20, thru_date = 100\<rparr>]"
     30 25]
  by (simp add: dated_def get_status_history_at_def)

section \<open>Properties of the table model\<close>

text \<open>
  C10: for a model built from data with at least one row, \<^verbatim>\<open>columnCount\<close> is the
  length of the first row and \<^verbatim>\<open>rowCount\<close> the number of rows; on data without rows
  \<^verbatim>\<open>columnCount\<close> raises \<^verbatim>\<open>IndexError\<close>, since it indexes row 0.
\<close>

theorem columnCount_rowCount:
  "(datain \<noteq> [] \<longrightarrow>
      columnCount (InputTableModel_init datain header) = Inr (length (hd datain)) \<and>
      rowCount (InputTableModel_init datain header) = length datain) \<and>
   columnCount (InputTableModel_init ([] :: 'a list list) header) = Inl IndexError"
  by (cases datain) (simp_all add: columnCount_def rowCount_def InputTableModel_init_def)

theorem columnCount_rowCount_witness:
  "[[''a'', ''b'', ''c''], [''d'', ''e'', ''f'']] \<noteq> [] \<and>
   columnCount (InputTableModel_init [[''a'', ''b'', ''c''], [''d'', ''e'', ''f'']] [''naam'']) = Inr 3 \<and>
   rowCount (InputTableModel_init [[''a'', ''b'', ''c''], [''d'', ''e'', ''f'']] [''naam'']) = 2"
  using columnCount_rowCount [of "[[''a'', ''b'', ''c''], [''d'', ''e'', ''f'']]" "[''naam'']"]
  by (simp add: columnCount_def rowCount_def InputTableModel_init_def)

section \<open>Properties of the entity validator\<close>

text \<open>
  C9: an object without a session and an object in the \<^verbatim>\<open>deleted\<close> set of its
  session are reported valid (the empty list) and the inherited validation is not
  consulted; an attached object that is not deleted gets the inherited validation.
\<close>

theorem validate_object_detached_or_deleted:
  "(object_session obj = Inr None \<longrightarrow>
      validate_object object_session deleted super_validate_object obj = Inr []) \<and>
   (object_session obj = Inr (Some session) \<and> obj \<in> deleted session \<longrightarrow>
      validate_object object_session deleted super_validate_object obj = Inr []) \<and>
   (object_session obj = Inr (Some session) \<and> obj \<notin> deleted session \<longrightarrow>
      validate_object object_session deleted super_validate_object obj =
        super_validate_object obj)"
  by (simp add: validate_object_def)

theorem validate_object_detached_or_deleted_witness:
  "validate_object (\<lambda>obj. if obj = (0::nat) then Inr None else Inr (Some ()))
       (\<lambda>s. {1}) (\<lambda>obj. Inr [''invalid'']) 0 = Inr [] \<and>
   validate_object (\<lambda>obj. if obj = (0::nat) then Inr None else Inr (Some ()))
       (\<lambda>s. {1}) (\<lambda>obj. Inr [''invalid'']) 1 = Inr [] \<and>
   validate_object (\<lambda>obj. if obj = (0::nat) then Inr None else Inr (Some ()))
       (\<lambda>s. {1}) (\<lambda>obj. Inr [''invalid'']) 2 = Inr [''invalid'']"
  using validate_object_detached_or_deleted
     [of "\<lambda>obj. if obj = (0::nat) then Inr None else Inr (Some ())" 0 "\<lambda>s. {1}" "\<lambda>obj. Inr [''invalid'']" "()"]
    validate_object_detached_or_deleted
     [of "\<lambda>obj. if obj = (0::nat) then Inr None else Inr (Some ())" 1 "\<lambda>s. {1}" "\<lambda>obj. Inr [''invalid'']" "()"]
    validate_object_detached_or_deleted
     [of "\<lambda>obj. if obj = (0::nat) then Inr None else Inr (Some ())" 2 "\<lambda>s. {1}" "\<lambda>obj. Inr [''invalid'']" "()"]
  by simp

section \<open>Properties of \<^verbatim>\<open>change_status\<close>\<close>

lemma query_first_None: "query_first p xs = None \<longleftrightarrow> (\<forall>x\<in>set xs. \<not> p x)"
  by (induction xs) auto

lemma query_first_Some:
  "query_first p xs = Some i \<Longrightarrow> i < length xs \<and> p (xs ! i) \<and> (\<forall>j<i. \<not> p (xs ! j))"
proof (induction xs arbitrary: i)
  case Nil
  then show ?case by simp
next
  case (Cons x xs)
  show ?case
  proof (cases "p x")
    case True
    with Cons.prems show ?thesis by simp
  next
    case False
    with Cons.prems obtain k where k: "query_first p xs = Some k" "i = Suc k"
      by auto
    from Cons.IH [OF k(1)] False k(2) show ?thesis
      by (auto simp: less_Suc_eq_0_disj)
  qed
qed





section \<open>Sequences of status changes\<close>

lemma overlap_iff: "overlap h k \<longleftrightarrow> (\<exists>d. in_range h d \<and> in_range k d)"
proof
  assume "overlap h k"
  then obtain a b c d where
    "status_from_date h = Some a" "status_thru_date h = Some b"
    "status_from_date k = Some c" "status_thru_date k = Some d"
    "a \<le> b" "c \<le> d" "a \<le> d" "c \<le> b"
    by (auto simp: overlap_def split: option.splits)
  then have "in_range h (max a c) \<and> in_range k (max a c)"
    by (simp add: in_range_def)
  then show "\<exists>d. in_range h d \<and> in_range k d" ..
next
  assume "\<exists>d. in_range h d \<and> in_range k d"
  then show "overlap h k"
    by (auto simp: overlap_def in_range_def split: option.splits)
qed

lemma overlap_sym: "overlap h k \<Longrightarrow> overlap k h"
  by (auto simp: overlap_iff)

lemma sorted_wrt_filter_both:
  "sorted_wrt (\<lambda>h k. p h \<and> p k \<longrightarrow> Q h k) xs \<Longrightarrow> sorted_wrt Q (filter p xs)"
  by (induction xs) auto

lemma shrink_overlap:
  assumes "in_range h f"
    and "u = h\<lparr>thru_date := y, status_thru_date := Some (f - 1)\<rparr>"
  shows "overlap u k \<Longrightarrow> overlap h k" and "overlap k u \<Longrightarrow> overlap k h"
  using assms by (auto simp: overlap_def in_range_def split: option.splits)

lemma not_in_range_no_overlap:
  assumes "\<not> in_range h f" and "status_from_date h = Some a" and "a \<le> f"
    and "status_from_date n = Some f"
  shows "\<not> overlap h n"
  using assms by (auto simp: overlap_def in_range_def split: option.splits)

lemma in_range_at_most_one:
  "non_overlapping hs \<Longrightarrow> length (filter (\<lambda>h. in_range h d) hs) \<le> 1"
proof (induction hs)
  case Nil
  then show ?case by simp
next
  case (Cons h hs)
  then have ih: "length (filter (\<lambda>h. in_range h d) hs) \<le> 1"
    and no: "\<forall>k\<in>set hs. \<not> overlap h k"
    by (simp_all add: non_overlapping_def)
  show ?case
  proof (cases "in_range h d")
    case True
    with no have "\<forall>k\<in>set hs. \<not> in_range k d"
      by (auto simp: overlap_iff)
    then have "filter (\<lambda>h. in_range h d) hs = []"
      by (simp add: filter_empty_conv)
    with True show ?thesis by simp
  next
    case False
    with ih show ?thesis by simp
  qed
qed


lemma change_status_step:
  fixes session :: "'st StatusHistory list"
  assumes inv1: "sorted_wrt (\<lambda>h k. status_for_id h = self \<and> status_for_id k = self \<longrightarrow> \<not> overlap h k)
                   session"
    and inv2: "\<forall>h\<in>set session. status_for_id h = self \<longrightarrow>
                 (\<exists>a. status_from_date h = Some a \<and> a \<le> b)"
    and f: "f = (case status_from of None \<Rightarrow> today | Some d \<Rightarrow> d)"
    and bf: "b \<le> f"
    and s': "session' = change_status today end_of_times self new_status status_from status_thru session"
  shows "sorted_wrt (\<lambda>h k. status_for_id h = self \<and> status_for_id k = self \<longrightarrow> \<not> overlap h k)
           session' \<and>
         (\<forall>h\<in>set session'. status_for_id h = self \<longrightarrow>
            (\<exists>a. status_from_date h = Some a \<and> a \<le> f))"
proof -
  let ?P = "\<lambda>h k :: 'st StatusHistory.
              status_for_id h = self \<and> status_for_id k = self \<longrightarrow> \<not> overlap h k"
  let ?q = "query_first (old_status_filter self f) session"
  define mid where "mid =
    (case ?q of None \<Rightarrow> session
     | Some i \<Rightarrow> session[i := (session ! i)\<lparr>thru_date := today - 1,
                                             status_thru_date := Some (f - 1)\<rparr>])"
  define new :: "'st StatusHistory" where "new =
    \<lparr>history_id = next_id (map history_id session), status_for_id = self,
     classified_by = new_status, status_datetime = None, status_from_date = Some f,
     status_thru_date = (case status_thru of Omitted \<Rightarrow> Some end_of_times | Passed t \<Rightarrow> t),
     from_date = today, thru_date = end_of_times\<rparr>"
  have s'_eq: "session' = mid @ [new]"
    unfolding s' mid_def new_def f by (simp add: change_status_def Let_def)
  have new_from: "status_from_date new = Some f"
    by (simp add: new_def)
  have len: "length mid = length session"
    by (simp add: mid_def split: option.splits)
  have nth_mid: "(mid ! j = session ! j \<or>
                  (in_range (session ! j) f \<and>
                   mid ! j = (session ! j)\<lparr>thru_date := today - 1,
                                            status_thru_date := Some (f - 1)\<rparr>)) \<and>
                 status_for_id (mid ! j) = status_for_id (session ! j) \<and>
                 status_from_date (mid ! j) = status_from_date (session ! j)"
    if "j < length session" for j
  proof (cases ?q)
    case None
    then show ?thesis by (simp add: mid_def)
  next
    case (Some i)
    from query_first_Some [OF Some] have "old_status_filter self f (session ! i)" by simp
    then have "in_range (session ! i) f" by (simp add: old_status_filter_def)
    then show ?thesis using Some that
      by (cases "j = i") (simp_all add: mid_def)
  qed
  have mid_P: "sorted_wrt ?P mid"
    unfolding sorted_wrt_iff_nth_less
  proof (intro allI impI)
    fix i j assume ij: "i < j" "j < length mid"
      and same: "status_for_id (mid ! i) = self \<and> status_for_id (mid ! j) = self"
    then have i: "i < length session" and j: "j < length session" using len by simp_all
    from inv1 ij len have "?P (session ! i) (session ! j)"
      by (simp add: sorted_wrt_iff_nth_less)
    with same nth_mid [OF i] nth_mid [OF j]
    have no: "\<not> overlap (session ! i) (session ! j)" by simp
    show "\<not> overlap (mid ! i) (mid ! j)"
    proof
      assume ov: "overlap (mid ! i) (mid ! j)"
      have "overlap (session ! i) (mid ! j)"
        using nth_mid [OF i] ov shrink_overlap(1) by metis
      then have "overlap (session ! i) (session ! j)"
        using nth_mid [OF j] shrink_overlap(2) by metis
      with no show False ..
    qed
  qed
  have mid_out: "\<not> in_range h f" if h: "h \<in> set mid" "status_for_id h = self" for h
  proof (cases ?q)
    case None
    then have "\<forall>x\<in>set session. \<not> old_status_filter self f x"
      by (simp add: query_first_None)
    with h None show ?thesis by (auto simp: mid_def old_status_filter_def)
  next
    case (Some i)
    from query_first_Some [OF Some]
    have i: "i < length session" "old_status_filter self f (session ! i)"
      "\<forall>j<i. \<not> old_status_filter self f (session ! j)" by simp_all
    have mid_eq: "mid = session[i := (session ! i)\<lparr>thru_date := today - 1,
                                             status_thru_date := Some (f - 1)\<rparr>]"
      using Some by (simp add: mid_def)
    from h(1) obtain j where j: "j < length session" "h = mid ! j"
      using len by (metis in_set_conv_nth)
    show ?thesis
    proof (cases "j = i")
      case True
      with j i(1) mid_eq show ?thesis by (simp add: in_range_def split: option.splits)
    next
      case False
      with j mid_eq have hj: "h = session ! j" by simp
      show ?thesis
      proof
        assume inr: "in_range h f"
        with hj h(2) have filt: "old_status_filter self f (session ! j)"
          by (simp add: old_status_filter_def)
        with i(3) False have "i < j" by (metis linorder_neqE_nat)
        with inv1 j(1) have "?P (session ! i) (session ! j)"
          by (simp add: sorted_wrt_iff_nth_less)
        moreover have "overlap (session ! i) (session ! j)"
          using i(2) filt by (auto simp: overlap_iff old_status_filter_def)
        ultimately show False using i(2) filt by (simp add: old_status_filter_def)
      qed
    qed
  qed
  have mid_from: "\<exists>a. status_from_date h = Some a \<and> a \<le> b"
    if h: "h \<in> set mid" "status_for_id h = self" for h
  proof -
    from h(1) obtain j where j: "j < length session" "h = mid ! j"
      using len by (metis in_set_conv_nth)
    with nth_mid [OF j(1)] h(2) inv2 show ?thesis by (metis nth_mem)
  qed
  have cross: "\<forall>h\<in>set mid. ?P h new"
  proof (intro ballI impI)
    fix h assume h: "h \<in> set mid" "status_for_id h = self \<and> status_for_id new = self"
    from mid_from [of h] h obtain a where a: "status_from_date h = Some a" "a \<le> b" by auto
    from mid_out [of h] h have "\<not> in_range h f" by simp
    then show "\<not> overlap h new"
      using a bf new_from by (intro not_in_range_no_overlap [of h f a new]) simp_all
  qed
  have "sorted_wrt ?P session'"
    using mid_P cross by (simp add: s'_eq sorted_wrt_append)
  moreover have "\<forall>h\<in>set session'. status_for_id h = self \<longrightarrow>
            (\<exists>a. status_from_date h = Some a \<and> a \<le> f)"
    using mid_from bf new_from by (fastforce simp: s'_eq)
  ultimately show ?thesis ..
qed


lemma change_status_calls_inv:
  fixes session :: "'st StatusHistory list"
  assumes "sorted_wrt (\<lambda>h k. status_for_id h = self \<and> status_for_id k = self \<longrightarrow> \<not> overlap h k)
             session"
    and "\<forall>h\<in>set session. status_for_id h = self \<longrightarrow>
           (\<exists>a. status_from_date h = Some a \<and> a \<le> b)"
    and "sorted (b # map call_from calls)"
  shows "sorted_wrt (\<lambda>h k. status_for_id h = self \<and> status_for_id k = self \<longrightarrow> \<not> overlap h k)
           (change_status_calls end_of_times self calls session)"
  using assms
proof (induction calls arbitrary: session b)
  case Nil
  then show ?case by simp
next
  case (Cons c calls)
  obtain today new_status sfd std where c: "c = (today, new_status, sfd, std)"
    by (cases c) auto
  let ?f = "case sfd of None \<Rightarrow> today | Some d \<Rightarrow> d"
  have cf: "call_from c = ?f" by (simp add: c)
  from Cons.prems(3) cf have bf: "b \<le> ?f" and rest: "sorted (?f # map call_from calls)"
    by simp_all
  from change_status_step [OF Cons.prems(1) Cons.prems(2) refl bf refl]
  have "sorted_wrt (\<lambda>h k. status_for_id h = self \<and> status_for_id k = self \<longrightarrow> \<not> overlap h k)
          (change_status today end_of_times self new_status sfd std session)"
    and "\<forall>h\<in>set (change_status today end_of_times self new_status sfd std session).
           status_for_id h = self \<longrightarrow> (\<exists>a. status_from_date h = Some a \<and> a \<le> ?f)"
    by blast+
  from Cons.IH [OF this rest] show ?case by (simp add: c)
qed

text \<open>
  C2, as amended: after a sequence of \<^verbatim>\<open>change_status\<close> calls on an entity whose
  history was empty, in which the \<^verbatim>\<open>status_from_date\<close> of each call (today when none
  is given) is not earlier than that of the call before, the date ranges of the
  entity's records are pairwise non-overlapping, so that at most one record of the
  entity is valid at any date.
\<close>

theorem change_status_calls_non_overlapping:
  assumes "status_collection self session = []"
    and "sorted (map call_from calls)"
  shows "non_overlapping
           (status_collection self (change_status_calls end_of_times self calls session)) \<and>
         length (filter (\<lambda>h. in_range h d)
           (status_collection self (change_status_calls end_of_times self calls session))) \<le> 1"
proof -
  have none: "\<forall>h\<in>set session. status_for_id h \<noteq> self"
    using assms(1) by (simp add: status_collection_def filter_empty_conv)
  then have inv1: "sorted_wrt
      (\<lambda>h k. status_for_id h = self \<and> status_for_id k = self \<longrightarrow> \<not> overlap h k) session"
    by (simp add: sorted_wrt_iff_nth_less)
  have "sorted_wrt (\<lambda>h k. status_for_id h = self \<and> status_for_id k = self \<longrightarrow> \<not> overlap h k)
          (change_status_calls end_of_times self calls session)"
  proof (cases calls)
    case Nil
    with inv1 show ?thesis by simp
  next
    case (Cons c cs)
    have "\<forall>h\<in>set session. status_for_id h = self \<longrightarrow>
            (\<exists>a. status_from_date h = Some a \<and> a \<le> call_from c)"
      using none by simp
    moreover have "sorted (call_from c # map call_from calls)"
      using assms(2) Cons by simp
    ultimately show ?thesis using inv1 by (rule change_status_calls_inv [rotated])
  qed
  then have "non_overlapping
      (status_collection self (change_status_calls end_of_times self calls session))"
    unfolding non_overlapping_def status_collection_def by (rule sorted_wrt_filter_both)
  then show ?thesis using in_range_at_most_one by blast
qed

theorem change_status_calls_non_overlapping_witness:
  "status_collection 1 ([] :: string StatusHistory list) = [] \<and>
   sorted (map call_from
     [(10, ''draft'', None, Omitted), (20, ''ready'', None, Omitted),
      (20, ''closed'', Some 30, Passed (Some 40))]) \<and>
   non_overlapping (status_collection 1 (change_status_calls 100 1
     [(10, ''draft'', None, Omitted), (20, ''ready'', None, Omitted),
      (20, ''closed'', Some 30, Passed (Some 40))] [])) \<and>
   length (filter (\<lambda>h. in_range h 35) (status_collection 1 (change_status_calls 100 1
     [(10, ''draft'', None, Omitted), (20, ''ready'', None, Omitted),
      (20, ''closed'', Some 30, Passed (Some 40))] []))) \<le> 1"
proof -
  have a: "status_collection 1 ([] :: string StatusHistory list) = []"
    by (simp add: status_collection_def)
  have b: "sorted (map call_from
     [(10, ''draft'', None, Omitted), (20, ''ready'', None, Omitted),
      (20, ''closed'', Some 30, Passed (Some 40))])"
    by simp
  from change_status_calls_non_overlapping [OF a b, of 100 35] a b show ?thesis by blast
qed

text \<open>
  Without the condition on the dates the ranges can overlap: a status set on day 10
  and, on day 12, a status back-dated to day 5 give two records that are both valid
  from day 10 on.
\<close>

theorem change_status_calls_overlap_counterexample:
  "status_collection 1 (change_status_calls 100 1
     [(10, ''draft'', None, Omitted), (12, ''ready'', Some 5, Omitted)] []) =
     [\<lparr>history_id = 1, status_for_id = 1, classified_by = ''draft'', status_datetime = None,
       status_from_date = Some 10, status_thru_date = Some 100,
       from_date = 10, thru_date = 100\<rparr>,
      \<lparr>history_id = 2, status_for_id = 1, classified_by = ''ready'', status_datetime = None,
       status_from_date = Some 5, status_thru_date = Some 100,
       from_date = 12, thru_date = 100\<rparr>] \<and>
   \<not> non_overlapping (status_collection 1 (change_status_calls 100 1
     [(10, ''draft'', None, Omitted), (12, ''ready'', Some 5, Omitted)] []))"
  by (simp add: status_collection_def change_status_def old_status_filter_def in_range_def
      next_id_def non_overlapping_def overlap_def)

section \<open>The current status and its query\<close>

text \<open>
  Where the two forms of the hybrid property meet: when every record of the entity is
  dated and at most one of them is valid today, the Python form returns what the query
  selects.
\<close>

lemma status_history_loop_find:
  "\<forall>h\<in>set hs. dated h \<Longrightarrow>
   status_history_loop d hs = Inr (find (\<lambda>h. in_range h d) hs)"
proof (induction hs)
  case Nil
  show ?case by simp
next
  case (Cons h hs)
  then obtain f t where "status_from_date h = Some f" "status_thru_date h = Some t"
    by (auto simp: dated_def)
  with Cons show ?case by (auto simp: in_range_def)
qed

lemma find_filter_hd:
  "find p xs = (case filter p xs of [] \<Rightarrow> None | x # _ \<Rightarrow> Some x)"
  by (induction xs) auto

lemma current_status_agrees_when_unique:
  assumes "\<forall>h\<in>set (status_collection self session). dated h"
    and "length (filter (\<lambda>h. in_range h today) (status_collection self session)) \<le> 1"
  shows "current_status today (status_collection self session) =
         Inr (current_status_query today session self)"
proof -
  let ?v = "filter (\<lambda>h. in_range h today) (status_collection self session)"
  have v: "filter (\<lambda>h. status_for_id h = self \<and> in_range h today) session = ?v"
    by (simp add: status_collection_def conj_commute)
  have py: "current_status today (status_collection self session) =
            Inr (case ?v of [] \<Rightarrow> None | h # _ \<Rightarrow> Some (classified_by h))"
    using status_history_loop_find [OF assms(1), of today]
    by (simp add: current_status_def get_status_history_at_def find_filter_hd
        split: list.splits)
  from assms(2) consider "?v = []" | h where "?v = [h]"
    by (cases ?v) (auto simp: length_Suc_conv)
  then have "current_status_query today session self =
             (case ?v of [] \<Rightarrow> None | h # _ \<Rightarrow> Some (classified_by h))"
    by cases (simp_all add: current_status_query_def v)
  with py show ?thesis by simp
qed

text \<open>
  C4: the Python form of \<^verbatim>\<open>current_status\<close> and its SQL form
  \<^verbatim>\<open>current_status_query\<close> are meant to give the same status. They do not when two
  records of the entity are valid today: the loop returns the first of the collection,
  the query the one with the largest primary key. After a status set on day 10 and a
  status back-dated to day 5 on day 12, on day 50 the first is \<open>draft\<close> and the second
  \<open>ready\<close>.
\<close>

theorem current_status_disagrees_with_query:
  "change_status_calls 100 1
     [(10, ''draft'', None, Omitted), (12, ''ready'', Some 5, Omitted)] [] =
     [\<lparr>history_id = 1, status_for_id = 1, classified_by = ''draft'', status_datetime = None,
       status_from_date = Some 10, status_thru_date = Some 100,
       from_date = 10, thru_date = 100\<rparr>,
      \<lparr>history_id = 2, status_for_id = 1, classified_by = ''ready'', status_datetime = None,
       status_from_date = Some 5, status_thru_date = Some 100,
       from_date = 12, thru_date = 100\<rparr>] \<and>
   current_status 50 (status_collection 1 (change_status_calls 100 1
     [(10, ''draft'', None, Omitted), (12, ''ready'', Some 5, Omitted)] [])) =
     Inr (Some ''draft'') \<and>
   current_status_query 50 (change_status_calls 100 1
     [(10, ''draft'', None, Omitted), (12, ''ready'', Some 5, Omitted)] []) 1 =
     Some ''ready''"
  by (simp add: status_collection_def change_status_def old_status_filter_def in_range_def
      next_id_def current_status_def current_status_query_def get_status_history_at_def)

section \<open>Properties of \<^verbatim>\<open>get_or_create\<close>\<close>

lemma find_append_new:
  "find p xs = None \<Longrightarrow> p y \<Longrightarrow> find p (xs @ [y]) = Some y"
  by (induction xs) (auto split: if_splits)

lemma find_Some_mem: "find p xs = Some x \<Longrightarrow> x \<in> set xs \<and> p x"
  by (induction xs) (auto split: if_splits)

lemma Country_get_or_create_idem:
  "Country_get_or_create code name' (snd (Country_get_or_create code name session)) =
   Country_get_or_create code name session"
proof (cases "find (\<lambda>c. country_code c = code) session")
  case None
  then show ?thesis
    by (simp add: Country_get_or_create_def Let_def find_append_new)
next
  case (Some c)
  then show ?thesis by (simp add: Country_get_or_create_def)
qed

lemma Country_get_or_create_result:
  "country_code (fst (Country_get_or_create code name session)) = code \<and>
   fst (Country_get_or_create code name session) \<in>
     set (snd (Country_get_or_create code name session)) \<and>
   ((\<forall>c\<in>set session. country_code c \<noteq> code) \<longrightarrow>
      snd (Country_get_or_create code name session) =
        session @ [fst (Country_get_or_create code name session)] \<and>
      country_name (fst (Country_get_or_create code name session)) = name) \<and>
   ((\<exists>c\<in>set session. country_code c = code) \<longrightarrow>
      snd (Country_get_or_create code name session) = session)"
proof (cases "find (\<lambda>c. country_code c = code) session")
  case None
  then have "\<forall>c\<in>set session. country_code c \<noteq> code"
    by (simp add: find_None_iff)
  with None show ?thesis
    by (simp add: Country_get_or_create_def Let_def)
next
  case (Some c)
  from find_Some_mem [OF Some] Some show ?thesis
    by (auto simp: Country_get_or_create_def)
qed

lemma Address_get_or_create_idem:
  "Address_get_or_create s1 s2 c (snd (Address_get_or_create s1 s2 c session)) =
   Address_get_or_create s1 s2 c session"
proof (cases "find (\<lambda>a. street1 a = s1 \<and> street2 a = s2 \<and> city a = c) session")
  case None
  then show ?thesis
    by (simp add: Address_get_or_create_def Let_def find_append_new)
next
  case (Some a)
  then show ?thesis by (simp add: Address_get_or_create_def)
qed

lemma Address_get_or_create_result:
  "street1 (fst (Address_get_or_create s1 s2 c session)) = s1 \<and>
   street2 (fst (Address_get_or_create s1 s2 c session)) = s2 \<and>
   city (fst (Address_get_or_create s1 s2 c session)) = c \<and>
   fst (Address_get_or_create s1 s2 c session) \<in>
     set (snd (Address_get_or_create s1 s2 c session)) \<and>
   ((\<forall>a\<in>set session. \<not> (street1 a = s1 \<and> street2 a = s2 \<and> city a = c)) \<longrightarrow>
      snd (Address_get_or_create s1 s2 c session) =
        session @ [fst (Address_get_or_create s1 s2 c session)]) \<and>
   ((\<exists>a\<in>set session. street1 a = s1 \<and> street2 a = s2 \<and> city a = c) \<longrightarrow>
      snd (Address_get_or_create s1 s2 c session) = session)"
proof (cases "find (\<lambda>a. street1 a = s1 \<and> street2 a = s2 \<and> city a = c) session")
  case None
  then have "\<forall>a\<in>set session. \<not> (street1 a = s1 \<and> street2 a = s2 \<and> city a = c)"
    by (simp add: find_None_iff)
  with None show ?thesis
    by (simp add: Address_get_or_create_def Let_def)
next
  case (Some a)
  from find_Some_mem [OF Some] Some show ?thesis
    by (auto simp: Address_get_or_create_def)
qed

lemma Country_get_or_create_again:
  "fold (\<lambda>n s. snd (Country_get_or_create code n s)) names
     (snd (Country_get_or_create code name session)) =
   snd (Country_get_or_create code name session)"
  by (induction names) (simp_all add: Country_get_or_create_idem)

lemma Address_get_or_create_again:
  "((\<lambda>s. snd (Address_get_or_create s1 s2 c s)) ^^ n)
     (snd (Address_get_or_create s1 s2 c session)) =
   snd (Address_get_or_create s1 s2 c session)"
  by (induction n) (simp_all add: Address_get_or_create_idem)

text \<open>
  C8: \<^verbatim>\<open>Country.get_or_create\<close> and \<^verbatim>\<open>Address.get_or_create\<close> are idempotent and
  update nothing. The record returned has the key asked for and is in the table. When
  no row has the key, the call adds one row, the record returned (with the name given);
  when a row has it, the table is unchanged. A second call with the same key, whatever
  the name, returns the same record and the same table as the first, and so does any
  number of further calls: the stored name stays and no duplicate appears.
\<close>

theorem get_or_create_idempotent:
  "Country_get_or_create code name' (snd (Country_get_or_create code name session)) =
     Country_get_or_create code name session \<and>
   fold (\<lambda>n s. snd (Country_get_or_create code n s)) names
     (snd (Country_get_or_create code name session)) =
     snd (Country_get_or_create code name session) \<and>
   country_code (fst (Country_get_or_create code name session)) = code \<and>
   fst (Country_get_or_create code name session) \<in>
     set (snd (Country_get_or_create code name session)) \<and>
   ((\<forall>c\<in>set session. country_code c \<noteq> code) \<longrightarrow>
      snd (Country_get_or_create code name session) =
        session @ [fst (Country_get_or_create code name session)] \<and>
      country_name (fst (Country_get_or_create code name session)) = name) \<and>
   ((\<exists>c\<in>set session. country_code c = code) \<longrightarrow>
      snd (Country_get_or_create code name session) = session) \<and>
   Address_get_or_create s1 s2 c (snd (Address_get_or_create s1 s2 c addresses)) =
     Address_get_or_create s1 s2 c addresses \<and>
   ((\<lambda>s. snd (Address_get_or_create s1 s2 c s)) ^^ n)
     (snd (Address_get_or_create s1 s2 c addresses)) =
     snd (Address_get_or_create s1 s2 c addresses) \<and>
   street1 (fst (Address_get_or_create s1 s2 c addresses)) = s1 \<and>
   street2 (fst (Address_get_or_create s1 s2 c addresses)) = s2 \<and>
   city (fst (Address_get_or_create s1 s2 c addresses)) = c \<and>
   fst (Address_get_or_create s1 s2 c addresses) \<in>
     set (snd (Address_get_or_create s1 s2 c addresses)) \<and>
   ((\<forall>a\<in>set addresses. \<not> (street1 a = s1 \<and> street2 a = s2 \<and> city a = c)) \<longrightarrow>
      snd (Address_get_or_create s1 s2 c addresses) =
        addresses @ [fst (Address_get_or_create s1 s2 c addresses)]) \<and>
   ((\<exists>a\<in>set addresses. street1 a = s1 \<and> street2 a = s2 \<and> city a = c) \<longrightarrow>
      snd (Address_get_or_create s1 s2 c addresses) = addresses)"
  using Country_get_or_create_idem [of code name' name session]
    Country_get_or_create_again [of code names name session]
    Country_get_or_create_result [of code name session]
    Address_get_or_create_idem [of s1 s2 c addresses]
    Address_get_or_create_again [of n s1 s2 c addresses]
    Address_get_or_create_result [of s1 s2 c addresses]
  by blast

theorem get_or_create_idempotent_witness:
  "Country_get_or_create (Some ''BE'') ''Belgium'' [] =
     (\<lparr>country_id = 1, country_code = Some ''BE'', country_name = ''Belgium''\<rparr>,
      [\<lparr>country_id = 1, country_code = Some ''BE'', country_name = ''Belgium''\<rparr>]) \<and>
   Country_get_or_create (Some ''BE'') ''Belgique''
     (snd (Country_get_or_create (Some ''BE'') ''Belgium'' [])) =
     (\<lparr>country_id = 1, country_code = Some ''BE'', country_name = ''Belgium''\<rparr>,
      [\<lparr>country_id = 1, country_code = Some ''BE'', country_name = ''Belgium''\<rparr>]) \<and>
   Address_get_or_create ''Main street 1'' None 7
     (snd (Address_get_or_create ''Main street 1'' None 7 [])) =
     (\<lparr>address_id = 1, street1 = ''Main street 1'', street2 = None, city = 7\<rparr>,
      [\<lparr>address_id = 1, street1 = ''Main street 1'', street2 = None, city = 7\<rparr>])"
  using get_or_create_idempotent [of "Some ''BE''" "''Belgique''" "''Belgium''" "[]"
      "[''Belgie'', ''Belgien'']" "''Main street 1''" None 7 "[]" 2]
  by (simp add: Country_get_or_create_def Address_get_or_create_def next_id_def Let_def)

section \<open>Errors that the code surfaces\<close>




section \<open>Related records written by the entity classes\<close>

lemma flush_loop_result:
  "flush_loop contact_mechanism deleted pcms (session, objects) =
     (if deleted
      then session\<lparr>deleted_objects := deleted_objects session \<union> set pcms\<rparr>
      else session,
      objects @ concat (map (\<lambda>p. [p, contact_mechanism p]) pcms))"
proof (induction pcms arbitrary: session objects)
  case Nil
  show ?case by simp
next
  case (Cons p pcms)
  show ?case by (simp add: Cons.IH)
qed

lemma PartyAddress_setattr_plain:
  "\<not> startswith attr ''address_'' \<Longrightarrow>
   PartyAddress_setattr st attr v = Inr (st\<lparr>self_attrs := (self_attrs st)(attr \<mapsto> v)\<rparr>)"
  by (simp add: PartyAddress_setattr_def)

lemma PartyAddress_setattr_through:
  assumes "startswith attr ''address_''" and "getattr_of (self_attrs st) ''address'' = VObj a"
  shows "PartyAddress_setattr st attr v =
     Inr (st\<lparr>self_attrs := (self_attrs st)(''_address_'' @ drop (length ''address_'') attr \<mapsto> v),
              heap := (heap st)(a := (heap st a)(drop (length ''address_'') attr \<mapsto> v))\<rparr>)"
  using assms by (simp add: PartyAddress_setattr_def getattr_of_def Let_def)

lemma PartyAddress_setattr_create:
  assumes "startswith attr ''address_''" and "getattr_of (self_attrs st) ''address'' = VNone"
    and "self = (self_attrs st)(''_address_'' @ drop (length ''address_'') attr \<mapsto> v)"
  shows "PartyAddress_setattr st attr v =
     Inr (if getattr_of self ''_address_street1'' \<noteq> VNone \<and> getattr_of self ''_address_city'' \<noteq> VNone
          then st\<lparr>self_attrs := self(''address'' \<mapsto> VObj (allocated st)),
                  heap := (heap st)(allocated st :=
                            [''street1'' \<mapsto> getattr_of self ''_address_street1'',
                             ''city'' \<mapsto> getattr_of self ''_address_city'']),
                  allocated := Suc (allocated st)\<rparr>
          else st\<lparr>self_attrs := self\<rparr>)"
  using assms by (simp add: PartyAddress_setattr_def getattr_of_def Let_def)


text \<open>
  An entity operation that creates a related record: on a \<^verbatim>\<open>PartyAddress\<close> without an
  address, setting \<^verbatim>\<open>address_street1\<close> stores the hidden attribute, and setting
  \<^verbatim>\<open>address_city\<close> after it creates a new \<^verbatim>\<open>Address\<close> with that street and city and
  makes it the address of the \<^verbatim>\<open>PartyAddress\<close>.
\<close>

theorem PartyAddress_setattr_creates_address_counterexample:
  "PartyAddress_setattr
     \<lparr>self_attrs = PartyAddress_new, heap = (\<lambda>r. Map.empty), allocated = 1\<rparr>
     ''address_street1'' (VStr ''Main street 1'') =
   Inr \<lparr>self_attrs = PartyAddress_new(''_address_street1'' \<mapsto> VStr ''Main street 1''),
        heap = (\<lambda>r. Map.empty), allocated = 1\<rparr> \<and>
   PartyAddress_setattr
     \<lparr>self_attrs = PartyAddress_new(''_address_street1'' \<mapsto> VStr ''Main street 1''),
      heap = (\<lambda>r. Map.empty), allocated = 1\<rparr>
     ''address_city'' (VObj 0) =
   Inr \<lparr>self_attrs = PartyAddress_new(''_address_street1'' \<mapsto> VStr ''Main street 1'',
          ''_address_city'' \<mapsto> VObj 0, ''address'' \<mapsto> VObj 1),
        heap = (\<lambda>r. Map.empty)
          (1 := [''street1'' \<mapsto> VStr ''Main street 1'', ''city'' \<mapsto> VObj 0]),
        allocated = 2\<rparr>"
  by (simp add: PartyAddress_setattr_def PartyAddress_new_def startswith_def getattr_of_def
      Let_def)

text \<open>
  C6, as amended: the entity classes do have logic of their own that creates,
  rewrites and deletes related records. \<^verbatim>\<open>PartyAddress.__setattr__\<close> on an attribute
  whose name does not start with \<^verbatim>\<open>address_\<close> stores the value and touches no other
  object; on a name that does, it stores the hidden attribute and, when the
  \<^verbatim>\<open>PartyAddress\<close> has an address, writes the value to that \<^verbatim>\<open>Address\<close>; when it has none
  and the hidden street and city are both set, it creates a new \<^verbatim>\<open>Address\<close> from them
  and makes it the address; otherwise nothing else changes. \<^verbatim>\<open>PartyAdmin.flush\<close> does
  nothing without a session, and with one it flushes the party, its contact
  mechanisms and theirs, and marks the party's contact mechanisms as deleted exactly
  when the party is in the session's \<^verbatim>\<open>deleted\<close> set.
\<close>

theorem related_records_logic:
  "(\<not> startswith attr ''address_'' \<longrightarrow>
      PartyAddress_setattr st attr v = Inr (st\<lparr>self_attrs := (self_attrs st)(attr \<mapsto> v)\<rparr>)) \<and>
   (startswith attr ''address_'' \<and> getattr_of (self_attrs st) ''address'' = VObj a \<longrightarrow>
      PartyAddress_setattr st attr v =
        Inr (st\<lparr>self_attrs :=
                 (self_attrs st)(''_address_'' @ drop (length ''address_'') attr \<mapsto> v),
               heap := (heap st)(a := (heap st a)(drop (length ''address_'') attr \<mapsto> v))\<rparr>)) \<and>
   (startswith attr ''address_'' \<and> getattr_of (self_attrs st) ''address'' = VNone \<and>
    self = (self_attrs st)(''_address_'' @ drop (length ''address_'') attr \<mapsto> v) \<longrightarrow>
      PartyAddress_setattr st attr v =
        Inr (if getattr_of self ''_address_street1'' \<noteq> VNone \<and>
                getattr_of self ''_address_city'' \<noteq> VNone
             then st\<lparr>self_attrs := self(''address'' \<mapsto> VObj (allocated st)),
                     heap := (heap st)(allocated st :=
                               [''street1'' \<mapsto> getattr_of self ''_address_street1'',
                                ''city'' \<mapsto> getattr_of self ''_address_city'']),
                     allocated := Suc (allocated st)\<rparr>
             else st\<lparr>self_attrs := self\<rparr>)) \<and>
   PartyAdmin_flush contact_mechanisms contact_mechanism None party = None \<and>
   PartyAdmin_flush contact_mechanisms contact_mechanism (Some session) party =
     Some (session
       \<lparr>deleted_objects :=
          (if party \<in> deleted_objects session
           then deleted_objects session \<union> set (contact_mechanisms party)
           else deleted_objects session),
        flushed := flushed session @ party #
          concat (map (\<lambda>p. [p, contact_mechanism p]) (contact_mechanisms party))\<rparr>)"
proof -
  have "PartyAdmin_flush contact_mechanisms contact_mechanism None party = None"
    by (simp add: PartyAdmin_flush_def)
  moreover have "PartyAdmin_flush contact_mechanisms contact_mechanism (Some session) party =
     Some (session
       \<lparr>deleted_objects :=
          (if party \<in> deleted_objects session
           then deleted_objects session \<union> set (contact_mechanisms party)
           else deleted_objects session),
        flushed := flushed session @ party #
          concat (map (\<lambda>p. [p, contact_mechanism p]) (contact_mechanisms party))\<rparr>)"
    by (simp add: PartyAdmin_flush_def flush_loop_result)
  ultimately show ?thesis
    using PartyAddress_setattr_plain [of attr st v]
      PartyAddress_setattr_through [of attr st a v]
      PartyAddress_setattr_create [of attr st self v]
    by blast
qed


theorem related_records_logic_witness:
  "\<not> startswith ''comment'' ''address_'' \<and>
   PartyAddress_setattr
     \<lparr>self_attrs = PartyAddress_new, heap = (\<lambda>r. Map.empty), allocated = 0\<rparr>
     ''comment'' (VStr ''home'') =
   Inr \<lparr>self_attrs = PartyAddress_new(''comment'' \<mapsto> VStr ''home''),
        heap = (\<lambda>r. Map.empty), allocated = 0\<rparr> \<and>
   startswith ''address_street2'' ''address_'' \<and>
   getattr_of [''address'' \<mapsto> VObj 3] ''address'' = VObj 3 \<and>
   PartyAddress_setattr
     \<lparr>self_attrs = [''address'' \<mapsto> VObj 3], heap = (\<lambda>r. Map.empty), allocated = 4\<rparr>
     ''address_street2'' (VStr ''bus 2'') =
   Inr \<lparr>self_attrs = [''address'' \<mapsto> VObj 3, ''_address_street2'' \<mapsto> VStr ''bus 2''],
        heap = (\<lambda>r. Map.empty)(3 := [''street2'' \<mapsto> VStr ''bus 2'']), allocated = 4\<rparr> \<and>
   startswith ''address_city'' ''address_'' \<and>
   getattr_of [''_address_street1'' \<mapsto> VStr ''Dorp 5''] ''address'' = VNone \<and>
   PartyAddress_setattr
     \<lparr>self_attrs = [''_address_street1'' \<mapsto> VStr ''Dorp 5''], heap = (\<lambda>r. Map.empty),
      allocated = 7\<rparr>
     ''address_city'' (VObj 2) =
   Inr \<lparr>self_attrs = [''_address_street1'' \<mapsto> VStr ''Dorp 5'', ''_address_city'' \<mapsto> VObj 2,
          ''address'' \<mapsto> VObj 7],
        heap = (\<lambda>r. Map.empty)(7 := [''street1'' \<mapsto> VStr ''Dorp 5'', ''city'' \<mapsto> VObj 2]),
        allocated = 8\<rparr> \<and>
   PartyAdmin_flush (\<lambda>p. if p = 1 then [2, 3] else []) (\<lambda>p. p + 10)
     (Some \<lparr>deleted_objects = {1}, flushed = []\<rparr>) (1::nat) =
   Some \<lparr>deleted_objects = {1, 2, 3}, flushed = [1, 2, 12, 3, 13]\<rparr>"
  using related_records_logic [of "''comment''"
      "\<lparr>self_attrs = PartyAddress_new, heap = (\<lambda>r. Map.empty), allocated = 0\<rparr>"
      "VStr ''home''" 0 "PartyAddress_new(''_address_comment'' \<mapsto> VStr ''home'')"
      "\<lambda>p. if p = 1 then [2, 3] else []" "\<lambda>p. p + 10" "1::nat"
      "\<lparr>deleted_objects = {1}, flushed = []\<rparr>"]
    related_records_logic [of "''address_street2''"
      "\<lparr>self_attrs = [''address'' \<mapsto> VObj 3], heap = (\<lambda>r. Map.empty), allocated = 4\<rparr>"
      "VStr ''bus 2''" 3 "[''address'' \<mapsto> VObj 3, ''_address_street2'' \<mapsto> VStr ''bus 2'']"
      "\<lambda>p. if p = 1 then [2, 3] else []" "\<lambda>p. p + 10" "1::nat"
      "\<lparr>deleted_objects = {1}, flushed = []\<rparr>"]
    related_records_logic [of "''address_city''"
      "\<lparr>self_attrs = [''_address_street1'' \<mapsto> VStr ''Dorp 5''], heap = (\<lambda>r. Map.empty),
        allocated = 7\<rparr>"
      "VObj 2" 0 "[''_address_street1'' \<mapsto> VStr ''Dorp 5'', ''_address_city'' \<mapsto> VObj 2]"
      "\<lambda>p. if p = 1 then [2, 3] else []" "\<lambda>p. p + 10" "1::nat"
      "\<lparr>deleted_objects = {1}, flushed = []\<rparr>"]
  by (simp add: PartyAddress_setattr_def PartyAddress_new_def startswith_def getattr_of_def
      Let_def PartyAdmin_flush_def insert_commute)

end
